theory Spec2Isabelle
  imports Main
begin

section \<open>Configuration\<close>

text \<open>
  The module reads its settings from the process environment once, at start-up
  (lines 23-30 of \<^verbatim>\<open>init-setup.py\<close>); they are constant afterwards.  The record keeps the
  names of the module-level variables.
\<close>

record config =
  MINIO_ENDPOINT :: string
  ACCESS_KEY :: string
  SECRET_KEY :: string
  WAREHOUSE_BUCKET :: string
  NAMESPACE :: string
  TABLE_NAME :: string
  TRINO_HOST :: string
  TRINO_PORT :: int

text \<open>The values used when no environment variable is set.\<close>

definition default_config :: config where
  "default_config =
     \<lparr>MINIO_ENDPOINT = ''http://nginx:9000'',
      ACCESS_KEY = ''minioadmin'',
      SECRET_KEY = ''minioadmin'',
      WAREHOUSE_BUCKET = ''api-logs'',
      NAMESPACE = ''minio'',
      TABLE_NAME = ''api_logs'',
      TRINO_HOST = ''trino'',
      TRINO_PORT = 8080\<rparr>"

section \<open>Python strings\<close>

text \<open>
  \<^verbatim>\<open>s.replace(old, new)\<close>: every non-overlapping occurrence of \<open>old\<close>, found from the
  left, is replaced by \<open>new\<close>; an empty \<open>old\<close> matches before every character and at the
  end.  Strings are lists of bytes here; the hyphen and the underscore are ASCII, so no
  multi-byte character is touched by the replacement of line 60.
\<close>

fun str_replace :: "string \<Rightarrow> string \<Rightarrow> string \<Rightarrow> string" where
  "str_replace old new [] = (if old = [] then new else [])"
| "str_replace old new (c # cs) =
     (if old = [] then new @ c # str_replace old new cs
      else if take (length old) (c # cs) = old
        then new @ str_replace old new (drop (length old) (c # cs))
        else c # str_replace old new cs)"

text \<open>\<^verbatim>\<open>s.lower()\<close> on ASCII letters; every other byte is kept.\<close>

definition lower_char :: "char \<Rightarrow> char" where
  "lower_char c =
     (case map_of (zip ''ABCDEFGHIJKLMNOPQRSTUVWXYZ'' ''abcdefghijklmnopqrstuvwxyz'') c of
        Some l \<Rightarrow> l
      | None \<Rightarrow> c)"

definition str_lower :: "string \<Rightarrow> string" where
  "str_lower s = map lower_char s"

text \<open>\<^verbatim>\<open>sub in s\<close>: \<open>sub\<close> occurs in \<open>s\<close> as a contiguous substring.\<close>

fun str_contains :: "string \<Rightarrow> string \<Rightarrow> bool" where
  "str_contains sub [] = (sub = [])"
| "str_contains sub (c # cs) = (take (length sub) (c # cs) = sub \<or> str_contains sub cs)"

text \<open>
  What the handler's test is meant to decide, said without \<^verbatim>\<open>lower\<close>: two characters are
  the same letter when they are equal or are the capital and the small form of one ASCII
  letter, and a string occurs in another one ignoring case when a contiguous piece of
  the other one has its length and, place by place, the same letters.
\<close>

definition same_letter :: "char \<Rightarrow> char \<Rightarrow> bool" where
  "same_letter c d \<longleftrightarrow>
     c = d \<or>
     (c, d) \<in> set (zip ''ABCDEFGHIJKLMNOPQRSTUVWXYZ'' ''abcdefghijklmnopqrstuvwxyz'') \<or>
     (d, c) \<in> set (zip ''ABCDEFGHIJKLMNOPQRSTUVWXYZ'' ''abcdefghijklmnopqrstuvwxyz'')"

fun occurs_ignoring_case :: "string \<Rightarrow> string \<Rightarrow> bool" where
  "occurs_ignoring_case sub [] = (sub = [])"
| "occurs_ignoring_case sub (c # cs) =
     (list_all2 same_letter sub (take (length sub) (c # cs)) \<or> occurs_ignoring_case sub cs)"

text \<open>
  \<^verbatim>\<open>s.split()\<close>: the maximal runs of characters of \<open>s\<close> that are not ASCII white space,
  in order.  The script never calls it; it is the yardstick by which two SQL texts are
  compared up to their layout.
\<close>

definition is_space :: "char \<Rightarrow> bool" where
  "is_space c = (c = CHR '' '' \<or> c = CHR ''\<newline>'' \<or> c = CHR 0x09 \<or> c = CHR 0x0D \<or> c = CHR 0x0B \<or> c = CHR 0x0C)"

fun split_acc :: "string \<Rightarrow> string \<Rightarrow> string list" where
  "split_acc cur [] = (if cur = [] then [] else [cur])"
| "split_acc cur (c # cs) =
     (if is_space c then (if cur = [] then split_acc [] cs else cur # split_acc [] cs)
      else split_acc (cur @ [c]) cs)"

definition str_split :: "string \<Rightarrow> string list" where
  "str_split s = split_acc [] s"

section \<open>Exceptions, the environment and the observable state\<close>

text \<open>
  A raised object is either an instance of \<^verbatim>\<open>Exception\<close> (every transport error of
  \<^verbatim>\<open>requests\<close>, every error of the Trino client, \<^verbatim>\<open>ImportError\<close>, \<^verbatim>\<open>IndexError\<close>), which
  \<^verbatim>\<open>except Exception\<close> catches, or one of the system-exiting classes that derive from
  \<^verbatim>\<open>BaseException\<close> only (\<^verbatim>\<open>KeyboardInterrupt\<close>, \<^verbatim>\<open>SystemExit\<close>), which it does not
  catch.  The string is \<^verbatim>\<open>str(e)\<close>.
\<close>

datatype raised = Exception string | SystemExiting string

fun is_system_exiting :: "raised + 'a \<Rightarrow> bool" where
  "is_system_exiting (Inl (SystemExiting m)) = True"
| "is_system_exiting (Inl (Exception m)) = False"
| "is_system_exiting (Inr v) = False"

text \<open>
  Everything outside the script is an oracle: what a GET of a URL yields when \<open>n\<close>
  requests have been sent before it (the status code of the response, or what it raises)
  and how many seconds pass until it returns or raises, whether the \<^verbatim>\<open>trino\<close> module can be imported, and what each call of the DB-API
  connection and cursor yields.
  \<open>repr_list\<close> is Python's \<^verbatim>\<open>repr\<close> of a list of strings, used by one log line only.
\<close>

record env =
  requests_get :: "string \<Rightarrow> nat \<Rightarrow> raised + int"
  get_seconds :: "string \<Rightarrow> nat \<Rightarrow> nat"
  import_trino :: "raised + unit"
  dbapi_connect :: "string \<Rightarrow> int \<Rightarrow> string \<Rightarrow> raised + unit"
  conn_cursor :: "raised + unit"
  cursor_execute :: "string \<Rightarrow> raised + unit"
  cursor_fetchall :: "raised + string list list"
  cursor_close :: "raised + unit"
  conn_close :: "raised + unit"
  repr_list :: "string list \<Rightarrow> string"

text \<open>
  The effects of a run, in the order they happen: the functions entered, the lines written
  to standard output (\<open>Logged\<close> lines carry the time-stamp prefix of \<^verbatim>\<open>log\<close>, which is left
  out), the URLs requested, the durations slept (in seconds), the SQL statements sent, and
  whether the connection and the cursor are open.  The blocking calls of the prober are
  kept on one timeline as well: a GET with its URL, the time-out passed to it and the
  seconds it took, and a sleep with its duration.
\<close>

datatype event = Get string nat nat | Sleep nat

datatype func = Wait_for_minio | Setup_trino_catalog | Print_instructions

datatype line = Logged string | Printed string

record world =
  calls :: "func list"
  out :: "line list"
  gets :: "string list"
  slept :: "nat list"
  events :: "event list"
  executed :: "string list"
  conn_open :: bool
  cursor_open :: bool

definition enter :: "func \<Rightarrow> world \<Rightarrow> world" where
  "enter f w = w\<lparr>calls := calls w @ [f]\<rparr>"

definition log :: "string \<Rightarrow> world \<Rightarrow> world" where
  "log msg w = w\<lparr>out := out w @ [Logged msg]\<rparr>"

definition print :: "string \<Rightarrow> world \<Rightarrow> world" where
  "print s w = w\<lparr>out := out w @ [Printed s]\<rparr>"

definition sleep :: "nat \<Rightarrow> world \<Rightarrow> world" where
  "sleep secs w = w\<lparr>slept := slept w @ [secs], events := events w @ [Sleep secs]\<rparr>"

text \<open>The time spent in the blocking calls of the timeline, in seconds.\<close>

fun seconds :: "event \<Rightarrow> nat" where
  "seconds (Get url timeout secs) = secs"
| "seconds (Sleep secs) = secs"

definition elapsed :: "world \<Rightarrow> nat" where
  "elapsed w = sum_list (map seconds (events w))"

section \<open>The readiness prober\<close>

definition health_url :: "config \<Rightarrow> string" where
  "health_url cfg = MINIO_ENDPOINT cfg @ ''/minio/health/live''"

text \<open>
  The loop of lines 41-49, with the number of iterations still to run.  An iteration sends
  one GET with a time-out of five seconds; a response with status 200 returns \<open>True\<close> at once; any other response and any
  \<^verbatim>\<open>Exception\<close> lead to the sleep of two seconds and the next iteration.  \<open>None\<close> is the
  loop running to its end without a \<^verbatim>\<open>return\<close>.
\<close>

fun poll :: "env \<Rightarrow> config \<Rightarrow> nat \<Rightarrow> world \<Rightarrow> (raised + bool option) \<times> world" where
  "poll E cfg 0 w = (Inr None, w)"
| "poll E cfg (Suc n) w =
     (let w1 = w\<lparr>gets := gets w @ [health_url cfg],
                  events := events w @
                    [Get (health_url cfg) 5 (get_seconds E (health_url cfg) (length (gets w)))]\<rparr> in
      case requests_get E (health_url cfg) (length (gets w)) of
        Inr status_code \<Rightarrow>
          if status_code = 200 then (Inr (Some True), log ''MinIO cluster is ready'' w1)
          else poll E cfg n (sleep 2 w1)
      | Inl (Exception m) \<Rightarrow> poll E cfg n (sleep 2 w1)
      | Inl (SystemExiting m) \<Rightarrow> (Inl (SystemExiting m), w1))"

definition wait_for_minio :: "env \<Rightarrow> config \<Rightarrow> world \<Rightarrow> (raised + bool) \<times> world" where
  "wait_for_minio E cfg w =
     (let w0 = log ''Waiting for MinIO cluster to be ready...'' (enter Wait_for_minio w) in
      case poll E cfg 60 w0 of
        (Inl e, w1) \<Rightarrow> (Inl e, w1)
      | (Inr (Some b), w1) \<Rightarrow> (Inr b, w1)
      | (Inr None, w1) \<Rightarrow> (Inr False, log ''Warning: MinIO health check timed out'' w1))"

section \<open>The catalog registrar\<close>

text \<open>Line 60: Trino catalog names cannot contain hyphens.\<close>

definition catalog_name :: "config \<Rightarrow> string" where
  "catalog_name cfg = str_replace ''-'' ''_'' (WAREHOUSE_BUCKET cfg)"

text \<open>The f-string of lines 71-88; \<open>cname\<close> is the catalog name computed at line 60.\<close>

definition create_catalog_sql :: "config \<Rightarrow> string \<Rightarrow> string" where
  \<open>create_catalog_sql cfg cname =
     ''\<newline>'' @
     ''            CREATE CATALOG '' @ cname @ '' USING iceberg\<newline>'' @
     ''            WITH (\<newline>'' @
     ''                "iceberg.catalog.type" = 'rest',\<newline>'' @
     ''                "iceberg.rest-catalog.uri" = '' @ [CHR 0x27] @ MINIO_ENDPOINT cfg @ ''/_iceberg',\<newline>'' @
     ''                "iceberg.rest-catalog.warehouse" = '' @ [CHR 0x27] @ WAREHOUSE_BUCKET cfg @ ''',\<newline>'' @
     ''                "iceberg.rest-catalog.vended-credentials-enabled" = 'true',\<newline>'' @
     ''                "iceberg.rest-catalog.security" = 'SIGV4',\<newline>'' @
     ''                "iceberg.rest-catalog.signing-name" = 's3tables',\<newline>'' @
     ''                "s3.region" = 'us-east-1',\<newline>'' @
     ''                "s3.aws-access-key" = '' @ [CHR 0x27] @ ACCESS_KEY cfg @ ''',\<newline>'' @
     ''                "s3.aws-secret-key" = '' @ [CHR 0x27] @ SECRET_KEY cfg @ ''',\<newline>'' @
     ''                "s3.endpoint" = '' @ [CHR 0x27] @ MINIO_ENDPOINT cfg @ ''',\<newline>'' @
     ''                "s3.path-style-access" = 'true',\<newline>'' @
     ''                "fs.hadoop.enabled" = 'false',\<newline>'' @
     ''                "fs.native-s3.enabled" = 'true'\<newline>'' @
     ''            )\<newline>'' @
     ''        ''\<close>

text \<open>
  The list comprehension of line 97: the first column of every row; \<^verbatim>\<open>s[0]\<close> raises
  \<^verbatim>\<open>IndexError\<close> on an empty row.
\<close>

fun first_columns :: "string list list \<Rightarrow> raised + string list" where
  "first_columns [] = Inr []"
| "first_columns ([] # ss) = Inl (Exception ''list index out of range'')"
| "first_columns ((x # xs) # ss) =
     (case first_columns ss of Inl e \<Rightarrow> Inl e | Inr ys \<Rightarrow> Inr (x # ys))"

text \<open>
  The body of the \<^verbatim>\<open>try\<close> block (lines 63-100), statement by statement, from its end to
  its beginning: closing the cursor and the connection (lines 99-100), the verification
  (lines 95-97), and the whole body.  The first call that raises ends the body, with the
  state as it is at that moment.
\<close>

definition close_all :: "env \<Rightarrow> world \<Rightarrow> (raised + unit) \<times> world" where
  "close_all E w =
     (case cursor_close E of
        Inl e \<Rightarrow> (Inl e, w)
      | Inr _ \<Rightarrow>
          (let w1 = w\<lparr>cursor_open := False\<rparr> in
           case conn_close E of
             Inl e \<Rightarrow> (Inl e, w1)
           | Inr _ \<Rightarrow> (Inr (), w1\<lparr>conn_open := False\<rparr>)))"

definition verify_catalog :: "env \<Rightarrow> string \<Rightarrow> world \<Rightarrow> (raised + unit) \<times> world" where
  "verify_catalog E cname w =
     (let show_sql = ''SHOW SCHEMAS FROM '' @ cname;
          w1 = w\<lparr>executed := executed w @ [show_sql]\<rparr> in
      case cursor_execute E show_sql of
        Inl e \<Rightarrow> (Inl e, w1)
      | Inr _ \<Rightarrow>
          (case cursor_fetchall E of
             Inl e \<Rightarrow> (Inl e, w1)
           | Inr schemas \<Rightarrow>
               (case first_columns schemas of
                  Inl e \<Rightarrow> (Inl e, w1)
                | Inr names \<Rightarrow>
                    close_all E
                      (log (''Available schemas in '' @ cname @ '': '' @ repr_list E names) w1))))"

definition try_body :: "env \<Rightarrow> config \<Rightarrow> string \<Rightarrow> world \<Rightarrow> (raised + unit) \<times> world" where
  "try_body E cfg cname w =
     (case dbapi_connect E (TRINO_HOST cfg) (TRINO_PORT cfg) ''trino'' of
        Inl e \<Rightarrow> (Inl e, w)
      | Inr _ \<Rightarrow>
          (let w1 = w\<lparr>conn_open := True\<rparr> in
           case conn_cursor E of
             Inl e \<Rightarrow> (Inl e, w1)
           | Inr _ \<Rightarrow>
               (let w2 = w1\<lparr>cursor_open := True\<rparr>;
                    sql = create_catalog_sql cfg cname;
                    w3 = log (''Creating Trino catalog: '' @ cname) w2;
                    w4 = w3\<lparr>executed := executed w3 @ [sql]\<rparr> in
                case cursor_execute E sql of
                  Inl e \<Rightarrow> (Inl e, w4)
                | Inr _ \<Rightarrow>
                    verify_catalog E cname
                      (log (''Trino catalog '' @ [CHR 0x27] @ cname @ ''' created successfully'') w4))))"

text \<open>
  The handler of lines 102-108.  It runs for instances of \<^verbatim>\<open>Exception\<close> only; a
  system-exiting exception passes through it.
\<close>

definition handler :: "string \<Rightarrow> string \<Rightarrow> world \<Rightarrow> world" where
  "handler cname error_msg w =
     (if str_contains ''already exists'' (str_lower error_msg)
      then log (''Trino catalog '' @ [CHR 0x27] @ cname @ ''' already exists'') w
      else log ''You may need to create the catalog manually''
             (log (''Warning: Could not create Trino catalog: '' @ error_msg) w))"

text \<open>
  The function itself.  \<^verbatim>\<open>import trino\<close> (line 56) is its first statement and stands
  before the \<^verbatim>\<open>try\<close>: what it raises leaves the function.
\<close>

definition setup_trino_catalog :: "env \<Rightarrow> config \<Rightarrow> world \<Rightarrow> (raised + string) \<times> world" where
  "setup_trino_catalog E cfg w =
     (let w0 = enter Setup_trino_catalog w in
      case import_trino E of
        Inl e \<Rightarrow> (Inl e, w0)
      | Inr _ \<Rightarrow>
          (let w1 = log ''Setting up Trino catalog...'' w0;
               cname = catalog_name cfg in
           case try_body E cfg cname w1 of
             (Inr _, w2) \<Rightarrow> (Inr cname, w2)
           | (Inl (Exception error_msg), w2) \<Rightarrow> (Inr cname, handler cname error_msg w2)
           | (Inl (SystemExiting m), w2) \<Rightarrow> (Inl (SystemExiting m), w2)))"

section \<open>The instruction printer\<close>

text \<open>
  The f-string of lines 118-197, cut into its sections: everything up to the Trino CLI
  (lines 118-164), the example queries (165-172), the heading of the manual alternative
  (173-177), the manual DDL (178-192) and the web interfaces (193-196).  \<open>instructions_text\<close> puts them together again.
\<close>

definition instructions_head :: "config \<Rightarrow> string" where
  \<open>instructions_head cfg =
     ''\<newline>'' @
     ''The MinIO cluster is configured to write API logs to an Iceberg table.\<newline>'' @
     ''Logs will be written to: '' @ WAREHOUSE_BUCKET cfg @ ''/'' @ NAMESPACE cfg @ ''/'' @ TABLE_NAME cfg @ ''\<newline>'' @
     ''\<newline>'' @
     ''CONFIGURATION:\<newline>'' @
     ''  - Write interval: logs are batched and written to Parquet files periodically\<newline>'' @
     ''  - Commit interval: Parquet files are committed to Iceberg periodically\<newline>'' @
     ''  - Both intervals are configurable via environment variables\<newline>'' @
     ''\<newline>'' @
     ''STEP 1: Generate API Traffic\<newline>'' @
     ''============================\<newline>'' @
     ''Use the mc client to generate API traffic that will be logged:\<newline>'' @
     ''\<newline>'' @
     ''  # Install mc if not already installed\<newline>'' @
     ''  # https://min.io/docs/minio/linux/reference/minio-mc.html\<newline>'' @
     ''\<newline>'' @
     ''  # Set up alias\<newline>'' @
     ''  mc alias set minio http://localhost:9000 '' @ ACCESS_KEY cfg @ '' '' @ SECRET_KEY cfg @ ''\<newline>'' @
     ''\<newline>'' @
     ''  # Create a test bucket and upload files\<newline>'' @
     ''  mc mb minio/test-bucket\<newline>'' @
     ''  for i in $(seq 1 100); do\<newline>'' @
     ''    echo "test data $i" | mc pipe minio/test-bucket/file-$i.txt\<newline>'' @
     ''  done\<newline>'' @
     ''\<newline>'' @
     ''  # List objects, get objects, etc.\<newline>'' @
     ''  mc ls minio/test-bucket\<newline>'' @
     ''  mc cat minio/test-bucket/file-1.txt\<newline>'' @
     ''  mc stat minio/test-bucket/file-1.txt\<newline>'' @
     ''\<newline>'' @
     ''STEP 2: Wait for Logs to be Committed\<newline>'' @
     ''=====================================\<newline>'' @
     ''The API logs are:\<newline>'' @
     ''  1. Written to local storage on each MinIO node\<newline>'' @
     ''  2. Periodically batched into Parquet files (write_interval)\<newline>'' @
     ''  3. Committed to the Iceberg table by the leader (commit_interval)\<newline>'' @
     ''\<newline>'' @
     ''Default intervals are 30s write / 1m commit for this test setup.\<newline>'' @
     ''Wait at least 2 minutes after generating traffic for logs to appear.\<newline>'' @
     ''\<newline>'' @
     ''STEP 3: Query Logs with Trino\<newline>'' @
     ''=============================\<newline>'' @
     ''Connect to Trino and query the API logs:\<newline>'' @
     ''\<newline>'' @
     ''  # Using Trino CLI\<newline>'' @
     ''  docker exec -it trino trino\<newline>'' @
     ''\<newline>''\<close>

definition example_queries :: "config \<Rightarrow> string \<Rightarrow> string" where
  \<open>example_queries cfg cname =
     ''  # In Trino, query the table\<newline>'' @
     ''  USE '' @ cname @ ''.'' @ NAMESPACE cfg @ '';\<newline>'' @
     ''  SELECT COUNT(*) FROM '' @ TABLE_NAME cfg @ '';\<newline>'' @
     ''  SELECT time, name, bucket, object, httpStatusCode FROM '' @ TABLE_NAME cfg @ '' LIMIT 10;\<newline>'' @
     ''  SELECT name, COUNT(*) as cnt FROM '' @ TABLE_NAME cfg @ '' GROUP BY name ORDER BY cnt DESC;\<newline>'' @
     ''\<newline>'' @
     ''  # Time-based queries\<newline>'' @
     ''  SELECT * FROM '' @ TABLE_NAME cfg @ '' WHERE time > TIMESTAMP '2024-01-01 00:00:00';\<newline>''\<close>

definition manual_header :: "string" where
  \<open>manual_header =
     ''\<newline>'' @
     ''ALTERNATIVE: Create Trino Catalog Manually\<newline>'' @
     ''==========================================\<newline>'' @
     ''If the catalog wasn't created automatically, create it in Trino:\<newline>'' @
     ''\<newline>''\<close>

definition manual_ddl :: "config \<Rightarrow> string \<Rightarrow> string" where
  \<open>manual_ddl cfg cname =
     ''  CREATE CATALOG '' @ cname @ '' USING iceberg WITH (\<newline>'' @
     ''    "iceberg.catalog.type" = 'rest',\<newline>'' @
     ''    "iceberg.rest-catalog.uri" = '' @ [CHR 0x27] @ MINIO_ENDPOINT cfg @ ''/_iceberg',\<newline>'' @
     ''    "iceberg.rest-catalog.warehouse" = '' @ [CHR 0x27] @ WAREHOUSE_BUCKET cfg @ ''',\<newline>'' @
     ''    "iceberg.rest-catalog.vended-credentials-enabled" = 'true',\<newline>'' @
     ''    "iceberg.rest-catalog.security" = 'SIGV4',\<newline>'' @
     ''    "iceberg.rest-catalog.signing-name" = 's3tables',\<newline>'' @
     ''    "s3.region" = 'us-east-1',\<newline>'' @
     ''    "s3.aws-access-key" = '' @ [CHR 0x27] @ ACCESS_KEY cfg @ ''',\<newline>'' @
     ''    "s3.aws-secret-key" = '' @ [CHR 0x27] @ SECRET_KEY cfg @ ''',\<newline>'' @
     ''    "s3.endpoint" = '' @ [CHR 0x27] @ MINIO_ENDPOINT cfg @ ''',\<newline>'' @
     ''    "s3.path-style-access" = 'true',\<newline>'' @
     ''    "fs.hadoop.enabled" = 'false',\<newline>'' @
     ''    "fs.native-s3.enabled" = 'true'\<newline>'' @
     ''  );\<newline>''\<close>

text \<open>
  The manual DDL without its last two characters, the semicolon and the newline: the
  statement itself, to be compared with the one the registrar sends.
\<close>

definition manual_create_catalog :: "config \<Rightarrow> string \<Rightarrow> string" where
  \<open>manual_create_catalog cfg cname =
     ''  CREATE CATALOG '' @ cname @ '' USING iceberg WITH (\<newline>'' @
     ''    "iceberg.catalog.type" = 'rest',\<newline>'' @
     ''    "iceberg.rest-catalog.uri" = '' @ [CHR 0x27] @ MINIO_ENDPOINT cfg @ ''/_iceberg',\<newline>'' @
     ''    "iceberg.rest-catalog.warehouse" = '' @ [CHR 0x27] @ WAREHOUSE_BUCKET cfg @ ''',\<newline>'' @
     ''    "iceberg.rest-catalog.vended-credentials-enabled" = 'true',\<newline>'' @
     ''    "iceberg.rest-catalog.security" = 'SIGV4',\<newline>'' @
     ''    "iceberg.rest-catalog.signing-name" = 's3tables',\<newline>'' @
     ''    "s3.region" = 'us-east-1',\<newline>'' @
     ''    "s3.aws-access-key" = '' @ [CHR 0x27] @ ACCESS_KEY cfg @ ''',\<newline>'' @
     ''    "s3.aws-secret-key" = '' @ [CHR 0x27] @ SECRET_KEY cfg @ ''',\<newline>'' @
     ''    "s3.endpoint" = '' @ [CHR 0x27] @ MINIO_ENDPOINT cfg @ ''',\<newline>'' @
     ''    "s3.path-style-access" = 'true',\<newline>'' @
     ''    "fs.hadoop.enabled" = 'false',\<newline>'' @
     ''    "fs.native-s3.enabled" = 'true'\<newline>'' @
     ''  )''\<close>


definition web_interfaces :: "config \<Rightarrow> string" where
  \<open>web_interfaces cfg =
     ''\<newline>'' @
     ''WEB INTERFACES:\<newline>'' @
     ''  - MinIO Console: http://localhost:9001 ('' @ ACCESS_KEY cfg @ ''/'' @ SECRET_KEY cfg @ '')\<newline>'' @
     ''  - Trino UI: http://localhost:9999\<newline>''\<close>

definition instructions_text :: "config \<Rightarrow> string \<Rightarrow> string" where
  "instructions_text cfg cname =
     instructions_head cfg @ example_queries cfg cname @ manual_header @
     manual_ddl cfg cname @ web_interfaces cfg"

definition print_instructions :: "config \<Rightarrow> string \<Rightarrow> world \<Rightarrow> world" where
  "print_instructions cfg cname w =
     print (replicate 70 CHR ''='')
       (print (instructions_text cfg cname)
         (print (replicate 70 CHR ''='')
           (print ''SETUP COMPLETE''
             (print (''\<newline>'' @ replicate 70 CHR ''='')
               (enter Print_instructions w)))))"

section \<open>The entry point\<close>

text \<open>
  \<^verbatim>\<open>main\<close> has no handler of its own: an exception that leaves a step leaves \<^verbatim>\<open>main\<close>, and
  the steps after it do not run.  \<^verbatim>\<open>sys.exit(main())\<close> turns the returned integer into the
  exit status of the process.
\<close>

definition banner :: "string \<Rightarrow> world \<Rightarrow> world" where
  "banner title w =
     log (replicate 60 CHR ''='') (log title (log (replicate 60 CHR ''='') w))"

definition main :: "env \<Rightarrow> config \<Rightarrow> world \<Rightarrow> (raised + int) \<times> world" where
  "main E cfg w =
     (case wait_for_minio E cfg (banner ''API Log Iceberg Integration Test - Initialization'' w) of
        (Inl e, w1) \<Rightarrow> (Inl e, w1)
      | (Inr ready, w1) \<Rightarrow>
          (case setup_trino_catalog E cfg w1 of
             (Inl e, w2) \<Rightarrow> (Inl e, w2)
           | (Inr cname, w2) \<Rightarrow>
               (Inr 0, banner ''Initialization complete!'' (print_instructions cfg cname w2))))"

section \<open>Sample runs\<close>

text \<open>
  The state before the script starts, and an environment in which nothing fails: the
  health endpoint answers 200 at once and in no time, the Trino client is installed and every call of
  it succeeds.  The runs examined below change one or two of its fields.
\<close>

definition world0 :: world where
  "world0 = \<lparr>calls = [], out = [], gets = [], slept = [], events = [], executed = [],
              conn_open = False, cursor_open = False\<rparr>"

fun repr_items :: "string list \<Rightarrow> string" where
  "repr_items [] = []"
| "repr_items [x] = [CHR 0x27] @ x @ [CHR 0x27]"
| "repr_items (x # y # ys) = [CHR 0x27] @ x @ [CHR 0x27] @ '', '' @ repr_items (y # ys)"

definition env_ok :: env where
  "env_ok =
     \<lparr>requests_get = (\<lambda>url n. Inr 200),
      get_seconds = (\<lambda>url n. 0),
      import_trino = Inr (),
      dbapi_connect = (\<lambda>host port user. Inr ()),
      conn_cursor = Inr (),
      cursor_execute = (\<lambda>sql. Inr ()),
      cursor_fetchall = Inr [[''information_schema''], [''minio'']],
      cursor_close = Inr (),
      conn_close = Inr (),
      repr_list = (\<lambda>names. ''['' @ repr_items names @ '']'')\<rparr>"

text \<open>
  The health endpoint refuses the first two connections; it never answers 200; every
  request to it runs into the time-out of five seconds.
\<close>

definition env_flaky :: env where
  "env_flaky =
     env_ok\<lparr>requests_get :=
       (\<lambda>url n. if n < 2 then Inl (Exception ''Connection refused'') else Inr 200)\<rparr>"

definition env_unhealthy :: env where
  "env_unhealthy = env_ok\<lparr>requests_get := (\<lambda>url n. Inr 503)\<rparr>"

definition env_timeouts :: env where
  "env_timeouts =
     env_ok\<lparr>requests_get := (\<lambda>url n. Inl (Exception ''Read timed out'')),
            get_seconds := (\<lambda>url n. 5)\<rparr>"

text \<open>
  The Trino client is not installed; the catalog exists already; the same error worded in
  capitals; the query engine cannot be reached by the connect call; it refuses the
  statement.
\<close>

definition env_no_trino :: env where
  "env_no_trino =
     env_ok\<lparr>import_trino :=
       Inl (Exception (''No module named '' @ [CHR 0x27] @ ''trino'' @ [CHR 0x27]))\<rparr>"

definition env_exists :: env where
  "env_exists =
     env_ok\<lparr>cursor_execute := (\<lambda>sql. Inl (Exception ''Catalog already exists''))\<rparr>"

definition env_exists_caps :: env where
  "env_exists_caps =
     env_ok\<lparr>cursor_execute := (\<lambda>sql. Inl (Exception ''CATALOG ALREADY EXISTS''))\<rparr>"

definition env_no_connection :: env where
  "env_no_connection =
     env_ok\<lparr>dbapi_connect := (\<lambda>host port user. Inl (Exception ''Connection refused''))\<rparr>"

definition env_refused :: env where
  "env_refused =
     env_ok\<lparr>cursor_execute := (\<lambda>sql. Inl (Exception ''Connection refused''))\<rparr>"

text \<open>Both steps fail: the cluster never becomes healthy and the statement is refused.\<close>

definition env_all_fail :: env where
  "env_all_fail =
     env_ok\<lparr>requests_get := (\<lambda>url n. Inr 503),
            cursor_execute := (\<lambda>sql. Inl (Exception ''Connection refused''))\<rparr>"

text \<open>
  An environment raises no system-exiting exception when none of its calls does.  The
  import of the Trino client is not part of it: that statement is outside every handler.
\<close>

definition no_system_exit :: "env \<Rightarrow> bool" where
  "no_system_exit E \<longleftrightarrow>
     (\<forall>url n. \<not> is_system_exiting (requests_get E url n)) \<and>
     (\<forall>host port user. \<not> is_system_exiting (dbapi_connect E host port user)) \<and>
     \<not> is_system_exiting (conn_cursor E) \<and>
     (\<forall>sql. \<not> is_system_exiting (cursor_execute E sql)) \<and>
     \<not> is_system_exiting (cursor_fetchall E) \<and>
     \<not> is_system_exiting (cursor_close E) \<and>
     \<not> is_system_exiting (conn_close E)"

section \<open>Properties of the catalog name\<close>

text \<open>The replacement on a few strings, as Python computes it.\<close>

lemma str_replace_examples:
  "str_replace ''-'' ''_'' ''my--bucket-'' = ''my__bucket_''"
  "str_replace ''aa'' ''b'' ''aaaaa'' = ''bba''"
  "str_replace ''ab'' ''ba'' ''aabb'' = ''abab''"
  "str_replace [] ''_'' ''abc'' = ''_a_b_c_''"
  by simp_all

text \<open>With one character for another, the replacement is a map over the characters.\<close>

lemma str_replace_char: "str_replace [a] [b] s = map (\<lambda>c. if c = a then b else c) s"
  by (induction s) simp_all

text \<open>
  Claim C3.  For every warehouse bucket name, the derived catalog name is the bucket name
  with every hyphen replaced by an underscore, it contains no hyphen, and for the bucket
  \<^verbatim>\<open>api-logs\<close> it is \<^verbatim>\<open>api_logs\<close>.
\<close>

theorem catalog_name_replaces_hyphens:
  "catalog_name cfg = map (\<lambda>c. if c = CHR ''-'' then CHR ''_'' else c) (WAREHOUSE_BUCKET cfg)
   \<and> CHR ''-'' \<notin> set (catalog_name cfg)
   \<and> catalog_name (cfg\<lparr>WAREHOUSE_BUCKET := ''api-logs''\<rparr>) = ''api_logs''"
  by (auto simp: catalog_name_def str_replace_char)

text \<open>
  Claim C10.  The derivation is idempotent: the catalog name derived from a bucket whose
  name is already a derived catalog name is that name again, so that sanitising twice is
  sanitising once.
\<close>

theorem catalog_name_idempotent:
  "catalog_name (cfg\<lparr>WAREHOUSE_BUCKET := catalog_name cfg\<rparr>) = catalog_name cfg
   \<and> str_replace ''-'' ''_'' (str_replace ''-'' ''_'' bucket) = str_replace ''-'' ''_'' bucket"
  by (simp add: catalog_name_def str_replace_char)

section \<open>Properties of the readiness prober\<close>

lemma gets_log [simp]: "gets (log m w) = gets w"
  by (simp add: log_def)

lemma gets_sleep [simp]: "gets (sleep n w) = gets w"
  by (simp add: sleep_def)

lemma gets_enter [simp]: "gets (enter f w) = gets w"
  by (simp add: enter_def)

text \<open>
  The requests of one call are numbered from the number of requests sent before it.  A
  status 200 among the next \<open>n\<close> answers is either the first answer or among the \<open>n - 1\<close>
  answers after it.
\<close>

lemma ex_200_Suc:
  "(\<exists>i<Suc n. get (k + i) = (Inr 200 :: raised + int)) \<longleftrightarrow>
   get k = Inr 200 \<or> (\<exists>i<n. get (Suc k + i) = Inr 200)"
  (is "?L \<longleftrightarrow> ?R")
proof
  assume ?L
  then obtain i where i: "i < Suc n" "get (k + i) = Inr 200" by blast
  show ?R
  proof (cases i)
    case 0
    with i show ?thesis by simp
  next
    case (Suc j)
    with i show ?thesis by auto
  qed
next
  assume ?R
  then show ?L
  proof
    assume "get k = Inr 200"
    then have "get (k + 0) = Inr 200" by simp
    then show ?L by blast
  next
    assume "\<exists>i<n. get (Suc k + i) = Inr 200"
    then obtain j where "j < n" "get (k + Suc j) = Inr 200" by auto
    then show ?L by (metis Suc_less_eq)
  qed
qed

lemma poll_result:
  "\<forall>i<n. \<not> is_system_exiting (requests_get E (health_url cfg) (length (gets w) + i)) \<Longrightarrow>
   fst (poll E cfg n w) =
     Inr (if \<exists>i<n. requests_get E (health_url cfg) (length (gets w) + i) = Inr 200
          then Some True else None)"
proof (induction n arbitrary: w)
  case 0
  show ?case by simp
next
  case (Suc n)
  let ?w1 = "sleep 2 (w\<lparr>gets := gets w @ [health_url cfg],
      events := events w @
        [Get (health_url cfg) 5 (get_seconds E (health_url cfg) (length (gets w)))]\<rparr>)"
  let ?get = "\<lambda>i. requests_get E (health_url cfg) i"
  have len: "length (gets ?w1) = Suc (length (gets w))" by simp
  have later: "\<forall>i<n. \<not> is_system_exiting (?get (length (gets ?w1) + i))"
    using Suc.prems by (auto simp: len)
  have IH: "fst (poll E cfg n ?w1) =
     Inr (if \<exists>i<n. ?get (Suc (length (gets w)) + i) = Inr 200 then Some True else None)"
    using Suc.IH [OF later] by (simp only: len)
  have first: "\<not> is_system_exiting (?get (length (gets w)))"
    using Suc.prems by (metis add.right_neutral zero_less_Suc)
  note ex = ex_200_Suc [of n ?get "length (gets w)"]
  show ?case
  proof (cases "?get (length (gets w))")
    case (Inr status_code)
    then show ?thesis using IH ex by (simp add: Let_def)
  next
    case (Inl e)
    with first obtain m where "e = Exception m" by (cases e) auto
    with Inl show ?thesis using IH ex by (simp add: Let_def)
  qed
qed

text \<open>
  The timeline of \<open>n\<close> failed attempts, the first one being request number \<open>k\<close>: each is
  a GET followed by a sleep of two seconds.
\<close>

lemma failed_attempts_Suc:
  "concat (map (\<lambda>i. [Get u t (d (k + i)), Sleep s]) [0..<Suc n]) =
   [Get u t (d k), Sleep s] @ concat (map (\<lambda>i. [Get u t (d (Suc k + i)), Sleep s]) [0..<n])"
  by (simp only: map_upt_Suc concat.simps add_0_right add_Suc_right add_Suc)

lemma failed_attempts_seconds:
  "sum_list (map seconds (concat (map (\<lambda>i. [Get u t (d i), Sleep s]) [0..<n]))) =
   n * s + (\<Sum>i<n. d i)"
  by (induction n) simp_all

lemma poll_exhausted:
  "\<forall>i<n. requests_get E (health_url cfg) (length (gets w) + i) \<noteq> Inr 200 \<and>
          \<not> is_system_exiting (requests_get E (health_url cfg) (length (gets w) + i)) \<Longrightarrow>
   poll E cfg n w =
     (Inr None,
      w\<lparr>gets := gets w @ replicate n (health_url cfg),
        slept := slept w @ replicate n 2,
        events := events w @
          concat (map (\<lambda>i. [Get (health_url cfg) 5
                               (get_seconds E (health_url cfg) (length (gets w) + i)),
                             Sleep 2]) [0..<n])\<rparr>)"
proof (induction n arbitrary: w)
  case 0
  show ?case by simp
next
  case (Suc n)
  let ?w1 = "sleep 2 (w\<lparr>gets := gets w @ [health_url cfg],
      events := events w @
        [Get (health_url cfg) 5 (get_seconds E (health_url cfg) (length (gets w)))]\<rparr>)"
  let ?get = "\<lambda>i. requests_get E (health_url cfg) i"
  have len: "length (gets ?w1) = Suc (length (gets w))" by simp
  have later: "\<forall>i<n. ?get (length (gets ?w1) + i) \<noteq> Inr 200 \<and>
                      \<not> is_system_exiting (?get (length (gets ?w1) + i))"
    using Suc.prems by (auto simp: len)
  have rest: "poll E cfg n ?w1 =
     (Inr None,
      w\<lparr>gets := gets w @ replicate (Suc n) (health_url cfg),
        slept := slept w @ replicate (Suc n) 2,
        events := events w @
          concat (map (\<lambda>i. [Get (health_url cfg) 5
                               (get_seconds E (health_url cfg) (length (gets w) + i)),
                             Sleep 2]) [0..<Suc n])\<rparr>)"
    unfolding Suc.IH [OF later] failed_attempts_Suc
    by (simp add: sleep_def replicate_append_same)
  have first: "?get (length (gets w)) \<noteq> Inr 200"
    "\<not> is_system_exiting (?get (length (gets w)))"
    using Suc.prems by (metis add.right_neutral zero_less_Suc)+
  show ?case
  proof (cases "?get (length (gets w))")
    case (Inr status_code)
    with first have "status_code \<noteq> 200" by simp
    with Inr rest show ?thesis by (simp add: Let_def del: upt_Suc)
  next
    case (Inl e)
    with first obtain m where "e = Exception m" by (cases e) auto
    with Inl rest show ?thesis by (simp add: Let_def del: upt_Suc)
  qed
qed

text \<open>
  A system-exiting exception is not caught by \<^verbatim>\<open>except Exception\<close>: it ends the loop and
  leaves the prober.
\<close>

lemma wait_for_minio_system_exit:
  "requests_get E (health_url cfg) (length (gets w)) = Inl (SystemExiting m) \<Longrightarrow>
   fst (wait_for_minio E cfg w) = Inl (SystemExiting m)"
  by (simp add: wait_for_minio_def numeral_eq_Suc Let_def)

text \<open>
  Claim C2.  Whatever the GET calls of the attempt budget do short of a system-exiting
  exception (any response, any transport error raised as an \<^verbatim>\<open>Exception\<close>), the prober
  returns and raises nothing, and it returns true if and only if one of the 60 answers to
  the health endpoint is a response with status 200.
\<close>

theorem wait_for_minio_true_iff_200:
  assumes "\<forall>i<60. \<not> is_system_exiting (requests_get E (health_url cfg) (length (gets w) + i))"
  shows "fst (wait_for_minio E cfg w) =
           Inr (\<exists>i<60. requests_get E (health_url cfg) (length (gets w) + i) = Inr 200)"
proof -
  let ?w0 = "log ''Waiting for MinIO cluster to be ready...'' (enter Wait_for_minio w)"
  have g: "gets ?w0 = gets w" by simp
  have "fst (poll E cfg 60 ?w0) =
     Inr (if \<exists>i<60. requests_get E (health_url cfg) (length (gets w) + i) = Inr 200
          then Some True else None)"
    using poll_result [of 60 E cfg ?w0] assms by (simp only: g)
  then show ?thesis
    by (cases "poll E cfg 60 ?w0") (simp add: wait_for_minio_def Let_def)
qed

theorem wait_for_minio_true_iff_200_witness:
  "\<not> (\<exists>i<60. is_system_exiting
         (requests_get env_flaky (health_url default_config) (length (gets world0) + i)))
   \<and> fst (wait_for_minio env_flaky default_config world0) = Inr True"
  using wait_for_minio_true_iff_200 [of env_flaky default_config world0]
  by (auto simp: world0_def env_flaky_def intro: exI [of _ 2])

text \<open>The whole run in which no attempt observes a status 200.\<close>

lemma wait_for_minio_exhausted:
  assumes "\<forall>i<60. requests_get E (health_url cfg) (length (gets w) + i) \<noteq> Inr 200 \<and>
             \<not> is_system_exiting (requests_get E (health_url cfg) (length (gets w) + i))"
  shows "wait_for_minio E cfg w =
     (Inr False,
      w\<lparr>calls := calls w @ [Wait_for_minio],
        out := out w @ [Logged ''Waiting for MinIO cluster to be ready...'',
                        Logged ''Warning: MinIO health check timed out''],
        gets := gets w @ replicate 60 (health_url cfg),
        slept := slept w @ replicate 60 2,
        events := events w @
          concat (map (\<lambda>i. [Get (health_url cfg) 5
                               (get_seconds E (health_url cfg) (length (gets w) + i)),
                             Sleep 2]) [0..<60])\<rparr>)"
proof -
  let ?w0 = "log ''Waiting for MinIO cluster to be ready...'' (enter Wait_for_minio w)"
  have g: "gets ?w0 = gets w" by simp
  have "\<forall>i<60. requests_get E (health_url cfg) (length (gets ?w0) + i) \<noteq> Inr 200 \<and>
     \<not> is_system_exiting (requests_get E (health_url cfg) (length (gets ?w0) + i))"
    using assms by (simp only: g)
  from poll_exhausted [OF this] show ?thesis
    unfolding wait_for_minio_def Let_def by (simp add: log_def enter_def)
qed

text \<open>
  Claim C7, as stated, fails in its part on the elapsed time.  The GET of line 43 blocks
  for up to its time-out of five seconds, and the sleep comes on top of it.  When every
  request runs into the time-out, the prober sleeps for 60 x 2 = 120 seconds, but the run
  takes 60 x (5 + 2) = 420 seconds: three and a half times attempts x interval.
\<close>

theorem wait_for_minio_takes_longer:
  "fst (wait_for_minio env_timeouts default_config world0) = Inr False
   \<and> sum_list (slept (snd (wait_for_minio env_timeouts default_config world0))) = 120
   \<and> elapsed (snd (wait_for_minio env_timeouts default_config world0)) = 420"
proof -
  have "\<forall>i<60. requests_get env_timeouts (health_url default_config) (length (gets world0) + i)
            \<noteq> Inr 200 \<and>
          \<not> is_system_exiting
              (requests_get env_timeouts (health_url default_config) (length (gets world0) + i))"
    by (simp add: env_timeouts_def env_ok_def)
  from wait_for_minio_exhausted [OF this] show ?thesis
    by (simp add: elapsed_def world0_def failed_attempts_seconds sum_list_replicate
          env_timeouts_def env_ok_def del: upt_Suc)
qed

text \<open>
  Claim C7, amended.  When none of the 60 attempts observes a response with status 200
  (each one gets another response or raises an \<^verbatim>\<open>Exception\<close>), the prober returns false
  after exactly 60 GET requests to the health endpoint, each of them followed at once by a
  sleep of two seconds, and logs the time-out warning.  The elapsed time is the 60 x 2
  seconds of sleep and, on top of them, the time the 60 requests take: it is at least
  attempts x interval, and equal to it only when the requests take no time.
\<close>

theorem wait_for_minio_exhausts_budget:
  assumes "\<forall>i<60. requests_get E (health_url cfg) (length (gets w) + i) \<noteq> Inr 200 \<and>
             \<not> is_system_exiting (requests_get E (health_url cfg) (length (gets w) + i))"
  shows "fst (wait_for_minio E cfg w) = Inr False
         \<and> gets (snd (wait_for_minio E cfg w)) = gets w @ replicate 60 (health_url cfg)
         \<and> slept (snd (wait_for_minio E cfg w)) = slept w @ replicate 60 2
         \<and> events (snd (wait_for_minio E cfg w)) =
             events w @
             concat (map (\<lambda>i. [Get (health_url cfg) 5
                                  (get_seconds E (health_url cfg) (length (gets w) + i)),
                                Sleep 2]) [0..<60])
         \<and> elapsed (snd (wait_for_minio E cfg w)) =
             elapsed w + 60 * 2 + (\<Sum>i<60. get_seconds E (health_url cfg) (length (gets w) + i))
         \<and> out (snd (wait_for_minio E cfg w)) =
             out w @ [Logged ''Waiting for MinIO cluster to be ready...'',
                      Logged ''Warning: MinIO health check timed out'']"
proof -
  note r = wait_for_minio_exhausted [OF assms]
  have "elapsed (snd (wait_for_minio E cfg w)) =
      elapsed w + 60 * 2 + (\<Sum>i<60. get_seconds E (health_url cfg) (length (gets w) + i))"
    unfolding r elapsed_def
    by (simp add: failed_attempts_seconds del: upt_Suc)
  then show ?thesis
    unfolding r by (simp del: upt_Suc)
qed

theorem wait_for_minio_exhausts_budget_witness:
  "\<not> (\<exists>i<60. requests_get env_unhealthy (health_url default_config) (length (gets world0) + i)
                = Inr 200)
   \<and> fst (wait_for_minio env_unhealthy default_config world0) = Inr False
   \<and> length (gets (snd (wait_for_minio env_unhealthy default_config world0))) = 60
   \<and> length (slept (snd (wait_for_minio env_unhealthy default_config world0))) = 60
   \<and> elapsed (snd (wait_for_minio env_unhealthy default_config world0)) = 120"
proof -
  have answers: "requests_get env_unhealthy u n = Inr 503" for u n
    by (simp add: env_unhealthy_def env_ok_def)
  have secs: "get_seconds env_unhealthy u n = 0" for u n
    by (simp add: env_unhealthy_def env_ok_def)
  have start: "gets world0 = []" "slept world0 = []" "elapsed world0 = 0"
    by (simp_all add: world0_def elapsed_def)
  have "\<forall>i<60. requests_get env_unhealthy (health_url default_config) (length (gets world0) + i)
            \<noteq> Inr 200 \<and>
          \<not> is_system_exiting
              (requests_get env_unhealthy (health_url default_config) (length (gets world0) + i))"
    by (simp add: answers)
  from wait_for_minio_exhausts_budget [OF this] show ?thesis
    by (simp add: answers secs start)
qed

section \<open>Properties of the catalog registrar\<close>

subsection \<open>Which exceptions can leave the \<^verbatim>\<open>try\<close> block\<close>

lemma is_system_exiting_Inl:
  "is_system_exiting (Inl e) \<longleftrightarrow> (case e of SystemExiting m \<Rightarrow> True | Exception m \<Rightarrow> False)"
  by (cases e) simp_all

lemma first_columns_Inl: "first_columns rows = Inl e \<Longrightarrow> \<exists>m. e = Exception m"
  by (induction rows rule: first_columns.induct) (auto split: sum.splits)

lemma close_all_no_exit:
  assumes "no_system_exit E"
  shows "\<not> is_system_exiting (fst (close_all E w))"
proof -
  have "\<not> is_system_exiting (cursor_close E)" "\<not> is_system_exiting (conn_close E)"
    using assms by (simp_all add: no_system_exit_def)
  then show ?thesis
    by (auto simp: close_all_def Let_def is_system_exiting_Inl split: sum.splits)
qed

lemma verify_catalog_no_exit:
  assumes "no_system_exit E"
  shows "\<not> is_system_exiting (fst (verify_catalog E cname w))"
proof -
  have "\<not> is_system_exiting (cursor_execute E (''SHOW SCHEMAS FROM '' @ cname))"
    "\<not> is_system_exiting (cursor_fetchall E)"
    using assms by (simp_all add: no_system_exit_def)
  then show ?thesis
    unfolding verify_catalog_def Let_def
    by (auto simp: is_system_exiting_Inl close_all_no_exit [OF assms]
          dest: first_columns_Inl split: sum.splits)
qed

lemma try_body_no_exit:
  assumes "no_system_exit E"
  shows "\<not> is_system_exiting (fst (try_body E cfg cname w))"
proof -
  have "\<not> is_system_exiting (dbapi_connect E (TRINO_HOST cfg) (TRINO_PORT cfg) ''trino'')"
    "\<not> is_system_exiting (conn_cursor E)"
    "\<not> is_system_exiting (cursor_execute E (create_catalog_sql cfg cname))"
    using assms by (simp_all add: no_system_exit_def)
  then show ?thesis
    unfolding try_body_def Let_def
    by (auto simp: is_system_exiting_Inl verify_catalog_no_exit [OF assms] split: sum.splits)
qed

subsection \<open>The value returned\<close>

lemma setup_trino_catalog_result:
  assumes "import_trino E = Inr ()" and "no_system_exit E"
  shows "fst (setup_trino_catalog E cfg w) = Inr (catalog_name cfg)"
proof -
  let ?w1 = "log ''Setting up Trino catalog...'' (enter Setup_trino_catalog w)"
  obtain r w2 where body: "try_body E cfg (catalog_name cfg) ?w1 = (r, w2)"
    by (cases "try_body E cfg (catalog_name cfg) ?w1")
  have "\<not> is_system_exiting r"
    using try_body_no_exit [OF assms(2), of cfg "catalog_name cfg" ?w1] body by simp
  then consider "r = Inr ()" | m where "r = Inl (Exception m)"
    by (cases r rule: is_system_exiting.cases) auto
  then show ?thesis
    using assms(1) body by cases (simp_all add: setup_trino_catalog_def Let_def)
qed

lemma catalog_name_default: "catalog_name default_config = ''api_logs''"
  by (simp add: catalog_name_def default_config_def)

text \<open>
  Claim C5.  With the Trino client importable and no system-exiting exception, the
  registrar returns the sanitised bucket name whatever the calls of the \<^verbatim>\<open>try\<close> block do:
  when the DDL succeeds, when it fails with an ``already exists'' error, and when it fails
  with any other error.  So two runs with the same configuration return the same name,
  however their environments and their states differ.
\<close>

theorem setup_trino_catalog_same_name:
  assumes "import_trino E = Inr ()" and "no_system_exit E"
    and "import_trino E' = Inr ()" and "no_system_exit E'"
  shows "fst (setup_trino_catalog E cfg w) = Inr (str_replace ''-'' ''_'' (WAREHOUSE_BUCKET cfg))
         \<and> fst (setup_trino_catalog E' cfg w') = fst (setup_trino_catalog E cfg w)"
proof -
  have "fst (setup_trino_catalog E cfg w) = Inr (catalog_name cfg)"
    using assms(1,2) by (rule setup_trino_catalog_result)
  moreover have "fst (setup_trino_catalog E' cfg w') = Inr (catalog_name cfg)"
    using assms(3,4) by (rule setup_trino_catalog_result)
  ultimately show ?thesis
    by (simp add: catalog_name_def)
qed

theorem setup_trino_catalog_same_name_witness:
  "fst (setup_trino_catalog env_ok default_config world0) = Inr ''api_logs''
   \<and> fst (setup_trino_catalog env_exists default_config world0) = Inr ''api_logs''
   \<and> fst (setup_trino_catalog env_refused default_config world0) = Inr ''api_logs''"
proof -
  have ok: "import_trino env_ok = Inr ()" "no_system_exit env_ok"
    by (simp_all add: no_system_exit_def env_ok_def)
  have ex: "import_trino env_exists = Inr ()" "no_system_exit env_exists"
    by (simp_all add: no_system_exit_def env_exists_def env_ok_def)
  have re: "import_trino env_refused = Inr ()" "no_system_exit env_refused"
    by (simp_all add: no_system_exit_def env_refused_def env_ok_def)
  have name: "str_replace ''-'' ''_'' (WAREHOUSE_BUCKET default_config) = ''api_logs''"
    by (simp add: default_config_def)
  show ?thesis
    using setup_trino_catalog_same_name [OF ok ex, of default_config world0 world0]
      setup_trino_catalog_same_name [OF ok re, of default_config world0 world0]
    by (simp only: name simp_thms)
qed

subsection \<open>The handler\<close>

text \<open>
  What the connect call raises, and what the execution of the \<^verbatim>\<open>CREATE CATALOG\<close>
  statement raises, is what the \<^verbatim>\<open>try\<close> block raises.
\<close>

lemma try_body_connect_raises:
  "dbapi_connect E (TRINO_HOST cfg) (TRINO_PORT cfg) ''trino'' = Inl e \<Longrightarrow>
   try_body E cfg cname w = (Inl e, w)"
  by (simp add: try_body_def)

lemma try_body_execute_raises:
  "dbapi_connect E (TRINO_HOST cfg) (TRINO_PORT cfg) ''trino'' = Inr () \<Longrightarrow>
   conn_cursor E = Inr () \<Longrightarrow>
   cursor_execute E (create_catalog_sql cfg cname) = Inl e \<Longrightarrow>
   fst (try_body E cfg cname w) = Inl e"
  by (simp add: try_body_def Let_def)

text \<open>
  The test of line 104, \<^verbatim>\<open>"already exists" in error_msg.lower()\<close>, decides whether the
  message contains \<^verbatim>\<open>already exists\<close> ignoring case.  Lower-casing a character gives a
  character that is not a capital exactly when the two are the same letter; so a
  lower-cased string equals a string without capitals exactly when the two have the same
  letters, place by place; so a string without capitals occurs in the lower-cased message
  exactly when it occurs in the message ignoring case.
\<close>

lemma lower_char_eq_iff:
  assumes "d \<notin> set ''ABCDEFGHIJKLMNOPQRSTUVWXYZ''"
  shows "lower_char c = d \<longleftrightarrow> same_letter d c"
proof -
  define ps where "ps = zip ''ABCDEFGHIJKLMNOPQRSTUVWXYZ'' ''abcdefghijklmnopqrstuvwxyz''"
  have dist: "distinct (map fst ps)"
    by (simp add: ps_def)
  have upper: "a \<in> set ''ABCDEFGHIJKLMNOPQRSTUVWXYZ''" if "(a, b) \<in> set ps" for a b
    using that unfolding ps_def by (rule set_zip_leftD)
  have low: "lower_char c = (case map_of ps c of Some l \<Rightarrow> l | None \<Rightarrow> c)"
    by (simp only: lower_char_def ps_def)
  have same: "same_letter d c \<longleftrightarrow> d = c \<or> (d, c) \<in> set ps \<or> (c, d) \<in> set ps"
    by (simp only: same_letter_def ps_def)
  show ?thesis
  proof (cases "map_of ps c")
    case None
    then have "(c, d) \<notin> set ps"
      by (metis map_of_eq_None_iff fst_conv image_eqI)
    moreover have "(d, c) \<notin> set ps"
      using assms upper by blast
    ultimately show ?thesis
      using None by (auto simp: low same)
  next
    case (Some l)
    then have cl: "(c, l) \<in> set ps"
      by (rule map_of_SomeD)
    have "(d, c) \<notin> set ps"
      using assms upper by blast
    moreover have "d \<noteq> c"
      using assms upper [OF cl] by blast
    moreover have "(c, d) \<in> set ps \<longleftrightarrow> l = d"
      using Some dist cl by (metis map_of_is_SomeI option.inject)
    ultimately show ?thesis
      using Some by (auto simp: low same)
  qed
qed

lemma map_lower_eq_iff:
  assumes "set sub \<inter> set ''ABCDEFGHIJKLMNOPQRSTUVWXYZ'' = {}"
  shows "map lower_char x = sub \<longleftrightarrow> list_all2 same_letter sub x"
  using assms
proof (induction x arbitrary: sub)
  case Nil
  show ?case by auto
next
  case (Cons c x)
  show ?case
  proof (cases sub)
    case Nil
    then show ?thesis by simp
  next
    case (Cons d sub')
    with Cons.prems have d: "d \<notin> set ''ABCDEFGHIJKLMNOPQRSTUVWXYZ''"
      and sub': "set sub' \<inter> set ''ABCDEFGHIJKLMNOPQRSTUVWXYZ'' = {}"
      by auto
    show ?thesis
      unfolding Cons using Cons.IH [OF sub'] lower_char_eq_iff [OF d, of c]
      by simp
  qed
qed

lemma str_contains_lower_iff:
  assumes "set sub \<inter> set ''ABCDEFGHIJKLMNOPQRSTUVWXYZ'' = {}"
  shows "str_contains sub (str_lower s) \<longleftrightarrow> occurs_ignoring_case sub s"
proof (induction s)
  case Nil
  show ?case by (simp add: str_lower_def)
next
  case (Cons c cs)
  have "take (length sub) (map lower_char (c # cs)) = sub \<longleftrightarrow>
        list_all2 same_letter sub (take (length sub) (c # cs))"
    using map_lower_eq_iff [OF assms, of "take (length sub) (c # cs)"]
    by (simp only: take_map)
  with Cons show ?case
    by (simp add: str_lower_def)
qed

lemma already_exists_iff:
  "str_contains ''already exists'' (str_lower m) \<longleftrightarrow> occurs_ignoring_case ''already exists'' m"
  by (rule str_contains_lower_iff) simp

text \<open>Occurring ignoring case, said with the piece of the text that matches.\<close>

lemma occurs_ignoring_case_iff:
  "occurs_ignoring_case sub s \<longleftrightarrow> (\<exists>p x q. s = p @ x @ q \<and> list_all2 same_letter sub x)"
proof (induction s)
  case Nil
  show ?case by auto
next
  case (Cons c cs)
  show ?case
  proof
    assume "occurs_ignoring_case sub (c # cs)"
    then consider "list_all2 same_letter sub (take (length sub) (c # cs))"
      | "occurs_ignoring_case sub cs"
      by auto
    then show "\<exists>p x q. c # cs = p @ x @ q \<and> list_all2 same_letter sub x"
    proof cases
      case 1
      have "c # cs = [] @ take (length sub) (c # cs) @ drop (length sub) (c # cs)"
        by simp
      with 1 show ?thesis by blast
    next
      case 2
      with Cons.IH obtain p x q where "cs = p @ x @ q" "list_all2 same_letter sub x"
        by auto
      then have "c # cs = (c # p) @ x @ q \<and> list_all2 same_letter sub x" by simp
      then show ?thesis by blast
    qed
  next
    assume "\<exists>p x q. c # cs = p @ x @ q \<and> list_all2 same_letter sub x"
    then obtain p x q where pq: "c # cs = p @ x @ q" and x: "list_all2 same_letter sub x"
      by auto
    show "occurs_ignoring_case sub (c # cs)"
    proof (cases p)
      case Nil
      from x have "length x = length sub" by (simp add: list_all2_lengthD)
      with pq Nil have "take (length sub) (c # cs) = x" by simp
      with x show ?thesis by simp
    next
      case (Cons a p')
      with pq have "cs = p' @ x @ q" by simp
      with Cons.IH x show ?thesis by auto
    qed
  qed
qed

text \<open>What the registrar does once the \<^verbatim>\<open>try\<close> block has raised, and what the handler logs.\<close>

lemma setup_trino_catalog_caught:
  assumes "import_trino E = Inr ()"
    and "try_body E cfg (catalog_name cfg)
           (log ''Setting up Trino catalog...'' (enter Setup_trino_catalog w))
         = (Inl (Exception m), w')"
  shows "setup_trino_catalog E cfg w =
           (Inr (catalog_name cfg), handler (catalog_name cfg) m w')"
  using assms by (simp add: setup_trino_catalog_def Let_def)

lemma out_handler:
  "out (handler cname m w) =
     out w @
     (if occurs_ignoring_case ''already exists'' m
      then [Logged (''Trino catalog '' @ [CHR 0x27] @ cname @ ''' already exists'')]
      else [Logged (''Warning: Could not create Trino catalog: '' @ m),
            Logged ''You may need to create the catalog manually''])"
  by (simp add: handler_def log_def already_exists_iff)

text \<open>
  Claim C6.  Take any \<^verbatim>\<open>Exception\<close> raised by the connect call, by the execution of the
  \<^verbatim>\<open>CREATE CATALOG\<close> statement or by the execution of \<^verbatim>\<open>SHOW SCHEMAS\<close>, with any message
  \<open>m\<close>.  It is caught: the registrar returns the catalog name and raises nothing.  After
  the one, two or three progress lines logged before the call that raised, the log goes
  on according to the message alone: when \<open>m\<close> contains \<^verbatim>\<open>already exists\<close> in any mixture
  of capital and small letters, with the single line that the catalog already exists, and
  no warning; otherwise with the two lines of the warning.
\<close>

theorem registrar_classifies_exceptions:
  assumes "import_trino E = Inr ()"
    and "dbapi_connect E (TRINO_HOST cfg) (TRINO_PORT cfg) ''trino'' = Inl (Exception m)
         \<or> dbapi_connect E (TRINO_HOST cfg) (TRINO_PORT cfg) ''trino'' = Inr () \<and>
           conn_cursor E = Inr () \<and>
           (cursor_execute E (create_catalog_sql cfg (catalog_name cfg)) = Inl (Exception m)
            \<or> cursor_execute E (create_catalog_sql cfg (catalog_name cfg)) = Inr () \<and>
              cursor_execute E (''SHOW SCHEMAS FROM '' @ catalog_name cfg) = Inl (Exception m))"
  shows "fst (setup_trino_catalog E cfg w) = Inr (catalog_name cfg)
         \<and> (\<exists>k\<in>{1, 2, 3}.
              out (snd (setup_trino_catalog E cfg w)) =
                out w @
                take k [Logged ''Setting up Trino catalog...'',
                        Logged (''Creating Trino catalog: '' @ catalog_name cfg),
                        Logged (''Trino catalog '' @ [CHR 0x27] @ catalog_name cfg @
                                ''' created successfully'')] @
                (if occurs_ignoring_case ''already exists'' m
                 then [Logged (''Trino catalog '' @ [CHR 0x27] @ catalog_name cfg @
                               ''' already exists'')]
                 else [Logged (''Warning: Could not create Trino catalog: '' @ m),
                       Logged ''You may need to create the catalog manually'']))"
proof -
  let ?c = "catalog_name cfg"
  let ?w1 = "log ''Setting up Trino catalog...'' (enter Setup_trino_catalog w)"
  let ?progress = "[Logged ''Setting up Trino catalog...'',
                    Logged (''Creating Trino catalog: '' @ ?c),
                    Logged (''Trino catalog '' @ [CHR 0x27] @ ?c @ ''' created successfully'')]"
  from assms(2) consider
      (connect) "dbapi_connect E (TRINO_HOST cfg) (TRINO_PORT cfg) ''trino'' = Inl (Exception m)"
    | (create) "dbapi_connect E (TRINO_HOST cfg) (TRINO_PORT cfg) ''trino'' = Inr ()"
        "conn_cursor E = Inr ()"
        "cursor_execute E (create_catalog_sql cfg ?c) = Inl (Exception m)"
    | (verify) "dbapi_connect E (TRINO_HOST cfg) (TRINO_PORT cfg) ''trino'' = Inr ()"
        "conn_cursor E = Inr ()"
        "cursor_execute E (create_catalog_sql cfg ?c) = Inr ()"
        "cursor_execute E (''SHOW SCHEMAS FROM '' @ ?c) = Inl (Exception m)"
    by blast
  then have "\<exists>w' k. k \<in> {1, 2, 3} \<and> try_body E cfg ?c ?w1 = (Inl (Exception m), w')
               \<and> out w' = out w @ take k ?progress"
  proof cases
    case connect
    then have "try_body E cfg ?c ?w1 = (Inl (Exception m), ?w1)"
      by (simp add: try_body_def)
    moreover have "out ?w1 = out w @ take 1 ?progress"
      by (simp add: log_def enter_def)
    ultimately show ?thesis by blast
  next
    case create
    let ?w' = "(log (''Creating Trino catalog: '' @ ?c) (?w1\<lparr>conn_open := True, cursor_open := True\<rparr>))
                 \<lparr>executed := executed w @ [create_catalog_sql cfg ?c]\<rparr>"
    from create have "try_body E cfg ?c ?w1 = (Inl (Exception m), ?w')"
      by (simp add: try_body_def Let_def log_def enter_def)
    moreover have "out ?w' = out w @ take 2 ?progress"
      by (simp add: log_def enter_def)
    ultimately show ?thesis by blast
  next
    case verify
    let ?w' = "(log (''Trino catalog '' @ [CHR 0x27] @ ?c @ ''' created successfully'')
                 (log (''Creating Trino catalog: '' @ ?c)
                    (?w1\<lparr>conn_open := True, cursor_open := True\<rparr>)))
                 \<lparr>executed := executed w @ [create_catalog_sql cfg ?c, ''SHOW SCHEMAS FROM '' @ ?c]\<rparr>"
    from verify have "try_body E cfg ?c ?w1 = (Inl (Exception m), ?w')"
      by (simp add: try_body_def verify_catalog_def Let_def log_def enter_def)
    moreover have "out ?w' = out w @ take 3 ?progress"
      by (simp add: log_def enter_def)
    ultimately show ?thesis by blast
  qed
  then obtain w' k where k: "k \<in> {1, 2, 3}"
    and body: "try_body E cfg ?c ?w1 = (Inl (Exception m), w')"
    and out: "out w' = out w @ take k ?progress"
    by blast
  have r: "setup_trino_catalog E cfg w = (Inr ?c, handler ?c m w')"
    using assms(1) body by (rule setup_trino_catalog_caught)
  have "out (snd (setup_trino_catalog E cfg w)) =
          out w @ take k ?progress @
          (if occurs_ignoring_case ''already exists'' m
           then [Logged (''Trino catalog '' @ [CHR 0x27] @ ?c @ ''' already exists'')]
           else [Logged (''Warning: Could not create Trino catalog: '' @ m),
                 Logged ''You may need to create the catalog manually''])"
    unfolding r by (simp only: snd_conv out_handler out append_assoc)
  with k r show ?thesis
    by (simp only: fst_conv) blast
qed

theorem registrar_classifies_exceptions_witness:
  "fst (setup_trino_catalog env_exists_caps default_config world0) = Inr ''api_logs''
   \<and> last (out (snd (setup_trino_catalog env_exists_caps default_config world0))) =
       Logged ''Trino catalog 'api_logs' already exists''
   \<and> fst (setup_trino_catalog env_no_connection default_config world0) = Inr ''api_logs''
   \<and> last (out (snd (setup_trino_catalog env_no_connection default_config world0))) =
       Logged ''You may need to create the catalog manually''
   \<and> Logged ''Warning: Could not create Trino catalog: Connection refused''
       \<in> set (out (snd (setup_trino_catalog env_no_connection default_config world0)))"
proof -
  have caps: "occurs_ignoring_case ''already exists'' ''CATALOG ALREADY EXISTS''"
    unfolding already_exists_iff [symmetric] by (simp add: str_lower_def lower_char_def)
  have refused: "\<not> occurs_ignoring_case ''already exists'' ''Connection refused''"
    unfolding already_exists_iff [symmetric] by (simp add: str_lower_def lower_char_def)
  have imp1: "import_trino env_exists_caps = Inr ()"
    by (simp add: env_exists_caps_def env_ok_def)
  have "dbapi_connect env_exists_caps (TRINO_HOST default_config) (TRINO_PORT default_config)
          ''trino'' = Inr ()"
    "conn_cursor env_exists_caps = Inr ()"
    "cursor_execute env_exists_caps (create_catalog_sql default_config (catalog_name default_config))
       = Inl (Exception ''CATALOG ALREADY EXISTS'')"
    by (simp_all add: env_exists_caps_def env_ok_def)
  then have raised1:
    "dbapi_connect env_exists_caps (TRINO_HOST default_config) (TRINO_PORT default_config) ''trino''
       = Inl (Exception ''CATALOG ALREADY EXISTS'')
     \<or> dbapi_connect env_exists_caps (TRINO_HOST default_config) (TRINO_PORT default_config) ''trino''
         = Inr () \<and>
       conn_cursor env_exists_caps = Inr () \<and>
       (cursor_execute env_exists_caps (create_catalog_sql default_config (catalog_name default_config))
          = Inl (Exception ''CATALOG ALREADY EXISTS'')
        \<or> cursor_execute env_exists_caps (create_catalog_sql default_config (catalog_name default_config))
            = Inr () \<and>
          cursor_execute env_exists_caps (''SHOW SCHEMAS FROM '' @ catalog_name default_config)
            = Inl (Exception ''CATALOG ALREADY EXISTS''))"
    by blast
  from registrar_classifies_exceptions [OF imp1 raised1, of world0]
  obtain k where r1: "fst (setup_trino_catalog env_exists_caps default_config world0)
        = Inr (catalog_name default_config)"
    and o1: "out (snd (setup_trino_catalog env_exists_caps default_config world0)) =
      out world0 @
      take k [Logged ''Setting up Trino catalog...'',
              Logged (''Creating Trino catalog: '' @ catalog_name default_config),
              Logged (''Trino catalog '' @ [CHR 0x27] @ catalog_name default_config @
                      ''' created successfully'')] @
      [Logged (''Trino catalog '' @ [CHR 0x27] @ catalog_name default_config @
               ''' already exists'')]"
    unfolding if_P [OF caps] by blast
  have imp2: "import_trino env_no_connection = Inr ()"
    by (simp add: env_no_connection_def env_ok_def)
  have "dbapi_connect env_no_connection (TRINO_HOST default_config) (TRINO_PORT default_config)
          ''trino'' = Inl (Exception ''Connection refused'')"
    by (simp add: env_no_connection_def env_ok_def)
  then have raised2:
    "dbapi_connect env_no_connection (TRINO_HOST default_config) (TRINO_PORT default_config) ''trino''
       = Inl (Exception ''Connection refused'')
     \<or> dbapi_connect env_no_connection (TRINO_HOST default_config) (TRINO_PORT default_config) ''trino''
         = Inr () \<and>
       conn_cursor env_no_connection = Inr () \<and>
       (cursor_execute env_no_connection (create_catalog_sql default_config (catalog_name default_config))
          = Inl (Exception ''Connection refused'')
        \<or> cursor_execute env_no_connection (create_catalog_sql default_config (catalog_name default_config))
            = Inr () \<and>
          cursor_execute env_no_connection (''SHOW SCHEMAS FROM '' @ catalog_name default_config)
            = Inl (Exception ''Connection refused''))"
    by (rule disjI1)
  from registrar_classifies_exceptions [OF imp2 raised2, of world0]
  obtain j where r2: "fst (setup_trino_catalog env_no_connection default_config world0)
        = Inr (catalog_name default_config)"
    and o2: "out (snd (setup_trino_catalog env_no_connection default_config world0)) =
      out world0 @
      take j [Logged ''Setting up Trino catalog...'',
              Logged (''Creating Trino catalog: '' @ catalog_name default_config),
              Logged (''Trino catalog '' @ [CHR 0x27] @ catalog_name default_config @
                      ''' created successfully'')] @
      [Logged (''Warning: Could not create Trino catalog: '' @ ''Connection refused''),
       Logged ''You may need to create the catalog manually'']"
    unfolding if_not_P [OF refused] by blast
  show ?thesis
    unfolding o1 o2 r1 r2 catalog_name_default by simp
qed

subsection \<open>The connection and the cursor\<close>

text \<open>
  Claim C1.  The cursor and the connection are closed at lines 99-100, the last two
  statements inside the \<^verbatim>\<open>try\<close> block, so only a run in which nothing raised reaches
  them.  In the run below the connection and the cursor are opened, the
  \<^verbatim>\<open>CREATE CATALOG\<close> statement raises ``Catalog already exists'', the handler logs it and
  the registrar returns the catalog name with both still open.  In the run where
  nothing fails both are closed.
\<close>

theorem registrar_leaves_connection_open:
  "fst (setup_trino_catalog env_exists default_config world0) = Inr ''api_logs''
   \<and> conn_open (snd (setup_trino_catalog env_exists default_config world0))
   \<and> cursor_open (snd (setup_trino_catalog env_exists default_config world0))
   \<and> \<not> conn_open (snd (setup_trino_catalog env_ok default_config world0))
   \<and> \<not> cursor_open (snd (setup_trino_catalog env_ok default_config world0))"
  by (simp add: setup_trino_catalog_def try_body_def verify_catalog_def close_all_def
        handler_def catalog_name_def default_config_def env_exists_def env_ok_def
        Let_def log_def enter_def world0_def)

section \<open>Properties of the entry point\<close>

subsection \<open>The functions entered\<close>

lemma calls_log [simp]: "calls (log m w) = calls w"
  by (simp add: log_def)

lemma calls_sleep [simp]: "calls (sleep n w) = calls w"
  by (simp add: sleep_def)

lemma calls_print [simp]: "calls (print s w) = calls w"
  by (simp add: print_def)

lemma calls_enter [simp]: "calls (enter f w) = calls w @ [f]"
  by (simp add: enter_def)

lemma calls_banner [simp]: "calls (banner t w) = calls w"
  by (simp add: banner_def)

lemma calls_handler [simp]: "calls (handler cname m w) = calls w"
  by (simp add: handler_def)

lemma calls_close_all: "calls (snd (close_all E w)) = calls w"
  by (simp add: close_all_def Let_def split: sum.splits)

lemma calls_verify_catalog: "calls (snd (verify_catalog E cname w)) = calls w"
  by (simp add: verify_catalog_def Let_def calls_close_all split: sum.splits)

lemma calls_try_body: "calls (snd (try_body E cfg cname w)) = calls w"
  by (simp add: try_body_def Let_def calls_verify_catalog split: sum.splits)

lemma calls_poll: "calls (snd (poll E cfg n w)) = calls w"
  by (induction n arbitrary: w) (simp_all add: Let_def split: sum.splits raised.splits)

lemma calls_wait_for_minio: "calls (snd (wait_for_minio E cfg w)) = calls w @ [Wait_for_minio]"
proof -
  let ?w0 = "log ''Waiting for MinIO cluster to be ready...'' (enter Wait_for_minio w)"
  have "calls (snd (poll E cfg 60 ?w0)) = calls w @ [Wait_for_minio]"
    by (simp only: calls_poll calls_log calls_enter)
  then show ?thesis
    by (cases "poll E cfg 60 ?w0")
       (auto simp: wait_for_minio_def Let_def split: sum.splits option.splits)
qed

lemma calls_setup_trino_catalog:
  "calls (snd (setup_trino_catalog E cfg w)) = calls w @ [Setup_trino_catalog]"
proof -
  let ?w1 = "log ''Setting up Trino catalog...'' (enter Setup_trino_catalog w)"
  have "calls (snd (try_body E cfg (catalog_name cfg) ?w1)) = calls w @ [Setup_trino_catalog]"
    by (simp only: calls_try_body calls_log calls_enter)
  then show ?thesis
    by (cases "try_body E cfg (catalog_name cfg) ?w1")
       (auto simp: setup_trino_catalog_def Let_def split: sum.splits raised.splits)
qed

lemma calls_print_instructions:
  "calls (print_instructions cfg cname w) = calls w @ [Print_instructions]"
  by (simp add: print_instructions_def)

subsection \<open>The three steps\<close>

lemma wait_for_minio_returns:
  assumes "no_system_exit E"
  shows "\<exists>b. fst (wait_for_minio E cfg w) = Inr b"
proof -
  let ?w0 = "log ''Waiting for MinIO cluster to be ready...'' (enter Wait_for_minio w)"
  have "\<forall>i<60. \<not> is_system_exiting (requests_get E (health_url cfg) (length (gets ?w0) + i))"
    using assms by (simp add: no_system_exit_def)
  from poll_result [OF this] obtain r w1 where "poll E cfg 60 ?w0 = (Inr r, w1)"
    by (cases "poll E cfg 60 ?w0") auto
  then show ?thesis
    by (cases r) (auto simp: wait_for_minio_def Let_def)
qed

text \<open>
  Claim C4, as stated, fails.  When the \<^verbatim>\<open>trino\<close> module cannot be imported, the import at
  line 56 raises before the \<^verbatim>\<open>try\<close> block is entered; the exception leaves the registrar
  and \<^verbatim>\<open>main\<close>, the instruction printer is never called and \<^verbatim>\<open>main\<close> returns no exit
  status.
\<close>

theorem main_stops_when_import_fails:
  "fst (main env_no_trino default_config world0) =
     Inl (Exception (''No module named '' @ [CHR 0x27] @ ''trino'' @ [CHR 0x27]))
   \<and> calls (snd (main env_no_trino default_config world0)) = [Wait_for_minio, Setup_trino_catalog]"
proof -
  let ?b = "banner ''API Log Iceberg Integration Test - Initialization'' world0"
  have "\<exists>b. fst (wait_for_minio env_no_trino default_config ?b) = Inr b"
    by (rule wait_for_minio_returns) (simp add: no_system_exit_def env_no_trino_def env_ok_def)
  then obtain ready w1 where w1: "wait_for_minio env_no_trino default_config ?b = (Inr ready, w1)"
    by (cases "wait_for_minio env_no_trino default_config ?b") auto
  have c1: "calls w1 = [Wait_for_minio]"
    using calls_wait_for_minio [of env_no_trino default_config ?b] w1
    by (simp add: world0_def)
  have s: "setup_trino_catalog env_no_trino default_config w1 =
     (Inl (Exception (''No module named '' @ [CHR 0x27] @ ''trino'' @ [CHR 0x27])),
      enter Setup_trino_catalog w1)"
    by (simp add: setup_trino_catalog_def env_no_trino_def env_ok_def Let_def)
  show ?thesis
    by (simp add: main_def w1 s c1)
qed

text \<open>
  Claim C4, amended.  When the \<^verbatim>\<open>trino\<close> module can be imported, then for every
  combination of failures of the steps (any response or \<^verbatim>\<open>Exception\<close> of the health
  checks, any \<^verbatim>\<open>Exception\<close> of the connect, execute, fetch and close calls) \<^verbatim>\<open>main\<close> enters
  the readiness prober, the catalog registrar and the instruction printer, in that order
  and each once, and returns 0.
\<close>

theorem main_runs_all_steps:
  assumes "import_trino E = Inr ()" and "no_system_exit E"
  shows "fst (main E cfg w) = Inr 0
         \<and> calls (snd (main E cfg w)) =
             calls w @ [Wait_for_minio, Setup_trino_catalog, Print_instructions]"
proof -
  let ?b = "banner ''API Log Iceberg Integration Test - Initialization'' w"
  obtain ready w1 where step1: "wait_for_minio E cfg ?b = (Inr ready, w1)"
    using wait_for_minio_returns [OF assms(2), of cfg ?b]
    by (cases "wait_for_minio E cfg ?b") auto
  have c1: "calls w1 = calls w @ [Wait_for_minio]"
    using calls_wait_for_minio [of E cfg ?b] step1 by simp
  obtain w2 where step2: "setup_trino_catalog E cfg w1 = (Inr (catalog_name cfg), w2)"
    using setup_trino_catalog_result [OF assms, of cfg w1]
    by (cases "setup_trino_catalog E cfg w1") auto
  have c2: "calls w2 = calls w @ [Wait_for_minio, Setup_trino_catalog]"
    using calls_setup_trino_catalog [of E cfg w1] step2 c1 by simp
  have m: "main E cfg w =
    (Inr 0, banner ''Initialization complete!'' (print_instructions cfg (catalog_name cfg) w2))"
    by (simp add: main_def step1 step2)
  show ?thesis
    unfolding m by (simp add: calls_print_instructions c2)
qed

theorem main_runs_all_steps_witness:
  "fst (wait_for_minio env_all_fail default_config
          (banner ''API Log Iceberg Integration Test - Initialization'' world0)) = Inr False
   \<and> fst (main env_all_fail default_config world0) = Inr 0
   \<and> calls (snd (main env_all_fail default_config world0)) =
       [Wait_for_minio, Setup_trino_catalog, Print_instructions]"
proof -
  have imp: "import_trino env_all_fail = Inr ()"
    by (simp add: env_all_fail_def env_ok_def)
  have nse: "no_system_exit env_all_fail"
    by (simp add: no_system_exit_def env_all_fail_def env_ok_def)
  have no200: "\<forall>i<60. requests_get env_all_fail (health_url default_config) (length (gets w) + i)
            \<noteq> Inr 200
          \<and> \<not> is_system_exiting
                (requests_get env_all_fail (health_url default_config) (length (gets w) + i))" for w
    by (simp add: env_all_fail_def env_ok_def)
  have unhealthy: "fst (wait_for_minio env_all_fail default_config w) = Inr False" for w
    unfolding wait_for_minio_exhausted [OF no200] by simp
  show ?thesis
    using main_runs_all_steps [OF imp nse, of default_config world0] unhealthy
    by (simp add: world0_def)
qed

section \<open>Properties of the instruction printer\<close>

subsection \<open>Substrings\<close>

lemma str_contains_iff: "str_contains sub s \<longleftrightarrow> (\<exists>p q. s = p @ sub @ q)"
proof (induction s)
  case Nil
  show ?case by auto
next
  case (Cons c cs)
  show ?case
  proof
    assume "str_contains sub (c # cs)"
    then consider "take (length sub) (c # cs) = sub" | "str_contains sub cs"
      by auto
    then show "\<exists>p q. c # cs = p @ sub @ q"
    proof cases
      case 1
      then have "c # cs = [] @ sub @ drop (length sub) (c # cs)"
        by (metis append_Nil append_take_drop_id)
      then show ?thesis by blast
    next
      case 2
      with Cons.IH obtain p q where "cs = p @ sub @ q" by auto
      then have "c # cs = (c # p) @ sub @ q" by simp
      then show ?thesis by blast
    qed
  next
    assume "\<exists>p q. c # cs = p @ sub @ q"
    then obtain p q where pq: "c # cs = p @ sub @ q" by auto
    show "str_contains sub (c # cs)"
    proof (cases p)
      case Nil
      with pq have "take (length sub) (c # cs) = sub" by simp
      then show ?thesis by simp
    next
      case (Cons a p')
      with pq have "cs = p' @ sub @ q" by simp
      with Cons.IH show ?thesis by auto
    qed
  qed
qed

lemma str_contains_mid: "s = p @ sub @ q \<Longrightarrow> str_contains sub s"
  by (auto simp: str_contains_iff)

lemma str_contains_trans:
  assumes "str_contains a b" and "str_contains b c"
  shows "str_contains a c"
proof -
  from assms obtain p q p' q' where "b = p @ a @ q" "c = p' @ b @ q'"
    by (auto simp: str_contains_iff)
  then have "c = (p' @ p) @ a @ (q @ q')" by simp
  then show ?thesis by (rule str_contains_mid)
qed

subsection \<open>The names in the printed text\<close>

lemma destination_in_head:
  "str_contains (''Logs will be written to: '' @ WAREHOUSE_BUCKET cfg @ ''/'' @ NAMESPACE cfg @ ''/'' @ TABLE_NAME cfg @ ''\<newline>'')
     (instructions_head cfg)"
  by (rule str_contains_mid
        [where p = "''\<newline>The MinIO cluster is configured to write API logs to an Iceberg table.\<newline>''"])
     (simp add: instructions_head_def)

lemma head_in_text: "str_contains (instructions_head cfg) (instructions_text cfg cname)"
  by (rule str_contains_mid [where p = "[]"]) (simp add: instructions_text_def)

lemma queries_in_text: "str_contains (example_queries cfg cname) (instructions_text cfg cname)"
  by (rule str_contains_mid [where p = "instructions_head cfg"]) (simp add: instructions_text_def)

lemma use_in_queries:
  "str_contains (''USE '' @ cname @ ''.'' @ NAMESPACE cfg @ '';'') (example_queries cfg cname)"
  by (rule str_contains_mid [where p = "''  # In Trino, query the table\<newline>  ''"])
     (simp add: example_queries_def)

lemma count_in_queries:
  "str_contains (''SELECT COUNT(*) FROM '' @ TABLE_NAME cfg @ '';'') (example_queries cfg cname)"
  by (rule str_contains_mid
        [where p = "''  # In Trino, query the table\<newline>  USE '' @ cname @ ''.'' @ NAMESPACE cfg @ '';\<newline>  ''"])
     (simp add: example_queries_def)

text \<open>
  Claim C8, as stated, fails.  The example queries name the catalog, not the bucket: with
  the default configuration they read \<^verbatim>\<open>USE api_logs.minio;\<close>, and the bucket name
  \<^verbatim>\<open>api-logs\<close> occurs nowhere in them.
\<close>

theorem example_queries_lack_bucket:
  "\<not> str_contains (WAREHOUSE_BUCKET default_config)
        (example_queries default_config (catalog_name default_config))"
  by (simp add: example_queries_def catalog_name_def default_config_def)

text \<open>
  Claim C8, amended.  For every configuration the printed instruction block contains the
  literal bucket, namespace and table name in its line
  \<^verbatim>\<open>Logs will be written to: bucket/namespace/table\<close>, and its example queries contain the
  literal namespace and table name, and the catalog name derived from the bucket in place
  of the bucket name: \<^verbatim>\<open>USE catalog.namespace;\<close> and \<^verbatim>\<open>SELECT COUNT(*) FROM table;\<close>.
\<close>

theorem instructions_contain_names:
  "Printed (instructions_text cfg (catalog_name cfg))
     \<in> set (out (print_instructions cfg (catalog_name cfg) w))
   \<and> str_contains (''Logs will be written to: '' @ WAREHOUSE_BUCKET cfg @ ''/'' @ NAMESPACE cfg @ ''/'' @ TABLE_NAME cfg @ ''\<newline>'')
        (instructions_text cfg (catalog_name cfg))
   \<and> str_contains (WAREHOUSE_BUCKET cfg) (instructions_text cfg (catalog_name cfg))
   \<and> str_contains (example_queries cfg (catalog_name cfg)) (instructions_text cfg (catalog_name cfg))
   \<and> str_contains (''USE '' @ catalog_name cfg @ ''.'' @ NAMESPACE cfg @ '';'')
        (example_queries cfg (catalog_name cfg))
   \<and> str_contains (''SELECT COUNT(*) FROM '' @ TABLE_NAME cfg @ '';'')
        (example_queries cfg (catalog_name cfg))
   \<and> str_contains (NAMESPACE cfg) (example_queries cfg (catalog_name cfg))
   \<and> str_contains (TABLE_NAME cfg) (example_queries cfg (catalog_name cfg))"
proof -
  let ?c = "catalog_name cfg"
  have printed: "Printed (instructions_text cfg ?c) \<in> set (out (print_instructions cfg ?c w))"
    by (simp add: print_instructions_def print_def)
  have dest: "str_contains (''Logs will be written to: '' @ WAREHOUSE_BUCKET cfg @ ''/'' @ NAMESPACE cfg @ ''/'' @ TABLE_NAME cfg @ ''\<newline>'')
        (instructions_text cfg ?c)"
    using destination_in_head head_in_text by (rule str_contains_trans)
  have "str_contains (WAREHOUSE_BUCKET cfg)
     (''Logs will be written to: '' @ WAREHOUSE_BUCKET cfg @ ''/'' @ NAMESPACE cfg @ ''/'' @ TABLE_NAME cfg @ ''\<newline>'')"
    by (rule str_contains_mid [where p = "''Logs will be written to: ''"]) simp
  then have bucket: "str_contains (WAREHOUSE_BUCKET cfg) (instructions_text cfg ?c)"
    using dest by (rule str_contains_trans)
  have "str_contains (NAMESPACE cfg) (''USE '' @ ?c @ ''.'' @ NAMESPACE cfg @ '';'')"
    by (rule str_contains_mid [where p = "''USE '' @ ?c @ ''.''"]) simp
  then have ns: "str_contains (NAMESPACE cfg) (example_queries cfg ?c)"
    using use_in_queries by (rule str_contains_trans)
  have "str_contains (TABLE_NAME cfg) (''SELECT COUNT(*) FROM '' @ TABLE_NAME cfg @ '';'')"
    by (rule str_contains_mid [where p = "''SELECT COUNT(*) FROM ''"]) simp
  then have tn: "str_contains (TABLE_NAME cfg) (example_queries cfg ?c)"
    using count_in_queries by (rule str_contains_trans)
  show ?thesis
    using printed dest bucket queries_in_text use_in_queries count_in_queries ns tn
    by (intro conjI)
qed

subsection \<open>The manual DDL and the statement executed\<close>

text \<open>The tokens of a text: white space separates them and is dropped.\<close>

lemma str_split_examples:
  "str_split ''  CREATE   CATALOG\<newline> x '' = [''CREATE'', ''CATALOG'', ''x'']"
  "str_split [] = []"
  by (simp_all add: str_split_def is_space_def)

text \<open>
  Two texts that go on in the same way after a common piece have the same tokens when
  their continuations have, whatever word is being read when the piece begins.
\<close>

lemma split_acc_append_cong:
  "(\<And>cur. split_acc cur r1 = split_acc cur r2) \<Longrightarrow>
   split_acc cur (v @ r1) = split_acc cur (v @ r2)"
  by (induction v arbitrary: cur) simp_all

lemma manual_ddl_in_text: "str_contains (manual_ddl cfg cname) (instructions_text cfg cname)"
  by (rule str_contains_mid
        [where p = "instructions_head cfg @ example_queries cfg cname @ manual_header"])
     (simp add: instructions_text_def)

lemma manual_ddl_cut: "manual_ddl cfg cname = manual_create_catalog cfg cname @ '';\<newline>''"
  by (simp add: manual_ddl_def manual_create_catalog_def)

lemma same_tokens:
  "str_split (manual_create_catalog cfg cname) = str_split (create_catalog_sql cfg cname)"
  unfolding str_split_def manual_create_catalog_def create_catalog_sql_def
  apply (simp add: is_space_def)
  apply (rule split_acc_append_cong, simp add: is_space_def)
  apply (rule split_acc_append_cong, simp add: is_space_def)
  apply (rule split_acc_append_cong, simp add: is_space_def)
  apply (rule split_acc_append_cong, simp add: is_space_def)
  apply (rule split_acc_append_cong, simp add: is_space_def)
  apply (rule split_acc_append_cong, simp add: is_space_def)
  done

lemma same_characters:
  "filter (\<lambda>c. \<not> is_space c) (manual_ddl cfg cname) =
   filter (\<lambda>c. \<not> is_space c) (create_catalog_sql cfg cname) @ '';''"
  by (simp add: manual_ddl_def create_catalog_sql_def is_space_def)

text \<open>
  Claim C9, as stated, fails.  The two texts are not identical: the f-string of the
  registrar begins with a newline and indents by twelve and sixteen spaces, that of the
  printer indents by two and four, keeps \<^verbatim>\<open>WITH (\<close> on the first line and ends in a
  semicolon.  With the default configuration they differ as strings, and their last
  tokens are \<^verbatim>\<open>);\<close> and \<^verbatim>\<open>)\<close>.
\<close>

theorem manual_ddl_not_identical:
  "manual_ddl default_config (catalog_name default_config) \<noteq>
     create_catalog_sql default_config (catalog_name default_config)
   \<and> last (str_split (manual_ddl default_config (catalog_name default_config))) = '');''
   \<and> last (str_split (create_catalog_sql default_config (catalog_name default_config))) = '')''"
  by (simp add: manual_ddl_def create_catalog_sql_def str_split_def is_space_def
        catalog_name_def default_config_def)

text \<open>
  Claim C9, amended.  For every configuration the manual fallback DDL of the printed
  instructions is the statement the registrar sends, up to its layout and a terminating
  semicolon: the printed text ends in a semicolon and a newline, what stands before them
  is the same sequence of tokens as the registrar's \<^verbatim>\<open>CREATE CATALOG\<close> text (the same
  catalog name, the same properties in the same order, the same interpolated values),
  and apart from white space the printed text is the registrar's text followed by the
  semicolon.  This holds for every catalog name, so for the name that \<^verbatim>\<open>main\<close> passes from
  the registrar to the printer.
\<close>

theorem manual_ddl_same_statement:
  "manual_ddl cfg cname = butlast (butlast (manual_ddl cfg cname)) @ '';\<newline>''
   \<and> str_split (butlast (butlast (manual_ddl cfg cname))) = str_split (create_catalog_sql cfg cname)
   \<and> filter (\<lambda>c. \<not> is_space c) (manual_ddl cfg cname) =
       filter (\<lambda>c. \<not> is_space c) (create_catalog_sql cfg cname) @ '';''
   \<and> str_contains (manual_ddl cfg cname) (instructions_text cfg cname)"
proof -
  have "butlast (butlast (manual_ddl cfg cname)) = manual_create_catalog cfg cname"
    unfolding manual_ddl_cut by (simp add: butlast_append)
  then show ?thesis
    using manual_ddl_cut same_tokens same_characters manual_ddl_in_text by simp
qed

end
